theory Spec2Isabelle
  imports
    Complex_Main
    "HOL-Library.Multiset"
    "HOL-Library.AList"
    "HOL-Library.Char_ord"
    "HOL-Library.List_Lexorder"
begin

section \<open>API log analytics: the data model\<close>

text \<open>
  The development follows \<^verbatim>\<open>config.py\<close>, \<^verbatim>\<open>utils.py\<close> and \<^verbatim>\<open>function.py\<close>.

  Conventions of the embedding.
  \<^item> A \<^verbatim>\<open>datetime\<close> that went through \<^verbatim>\<open>astimezone(timezone.utc)\<close> is an instant; it is
    an \<open>int\<close>, the number of microseconds since the epoch. \<^verbatim>\<open>timedelta(minutes=m)\<close> is
    \<open>m * 60000000\<close>. Comparison, \<^verbatim>\<open>min\<close>, \<^verbatim>\<open>max\<close>, subtraction and \<^verbatim>\<open>.hour\<close> are then
    integer arithmetic. Where the report carries \<^verbatim>\<open>t.isoformat().replace("+00:00", "Z")\<close>
    the model carries the instant \<open>t\<close> itself.
  \<^item> Python \<^verbatim>\<open>float\<close> values are exact rationals (\<open>rat\<close>): \<^verbatim>\<open>/\<close> is exact division and
    \<^verbatim>\<open>round(x, n)\<close> rounds the exact value half-to-even at \<open>n\<close> decimals. Binary
    representation error is not modelled.
  \<^item> A \<^verbatim>\<open>dict\<close> (also \<^verbatim>\<open>defaultdict\<close>, \<^verbatim>\<open>Counter\<close>) whose iteration order is observed is an
    association list in insertion order; \<open>AList.update\<close> overwrites a present key in
    place and appends an absent one, as assignment to a Python dict does.
  \<^item> An exception that escapes is \<open>Inl e\<close>; an exception that the source catches is the
    \<open>None\<close> of the surrounding \<^verbatim>\<open>try\<close>.
  \<^item> The two parsers of the standard library that the code calls on text,
    \<^verbatim>\<open>int(s)\<close> and \<^verbatim>\<open>datetime.fromisoformat(s)\<close>, are parameters (record \<open>stdlib\<close>).
\<close>

type_synonym datetime = int

datatype error = IndexError | ValueError

datatype severity = Medium | High | Critical

text \<open>
  A value of a raw record (\<^verbatim>\<open>Any\<close>): \<^verbatim>\<open>None\<close>, an \<^verbatim>\<open>int\<close>, a \<^verbatim>\<open>str\<close>, or any other object.
  Another object (a float, a bool, a list, ...) is given by what \<^verbatim>\<open>int(v)\<close> and \<^verbatim>\<open>str(v)\<close>
  return on it, \<open>None\<close> when the call raises; it has no \<^verbatim>\<open>replace\<close> that takes two strings.
\<close>

datatype pyval = PyNone | PyInt int | PyStr string | PyOther "int option" "string option"

type_synonym raw_entry = "string \<rightharpoonup> pyval"

record stdlib =
  int_of_str :: "string \<Rightarrow> int option"
  fromisoformat_utc :: "string \<Rightarrow> datetime option"

text \<open>
  \<open>int_of_str L s\<close> is \<^verbatim>\<open>int(s)\<close> for a string, and \<open>fromisoformat_utc L s\<close> is
  \<^verbatim>\<open>datetime.fromisoformat(s).astimezone(timezone.utc)\<close>; both are \<open>None\<close> when the call
  raises.
\<close>

record log_entry =
  timestamp :: datetime
  endpoint :: string
  http_method :: string
  response_time_ms :: int
  status_code :: int
  user_id :: string
  request_size_bytes :: int
  response_size_bytes :: int

record thresholds =
  medium :: rat
  high :: rat
  critical :: rat

section \<open>config.py\<close>

definition SEVERITY_THRESHOLDS_MS :: thresholds where
  "SEVERITY_THRESHOLDS_MS = \<lparr>medium = 500, high = 1000, critical = 2000\<rparr>"

definition ERROR_RATE_THRESHOLDS_PERCENT :: thresholds where
  "ERROR_RATE_THRESHOLDS_PERCENT = \<lparr>medium = 5, high = 10, critical = 15\<rparr>"

definition COST_PER_REQUEST_USD :: rat where
  "COST_PER_REQUEST_USD = 1 / 10000"

definition COST_PER_MS_EXECUTION_USD :: rat where
  "COST_PER_MS_EXECUTION_USD = 2 / 1000000"

text \<open>A bracket is \<open>(low, high, cost)\<close>; the upper bound \<^verbatim>\<open>float("inf")\<close> is \<open>None\<close>.\<close>

definition MEMORY_COST_BRACKETS :: "(int \<times> int option \<times> rat) list" where
  "MEMORY_COST_BRACKETS =
     [(0, Some 1024, 1 / 100000),
      (1024, Some (10 * 1024), 5 / 100000),
      (10 * 1024, None, 1 / 10000)]"

definition REQUEST_SPIKE_WINDOW_MINUTES :: int where
  "REQUEST_SPIKE_WINDOW_MINUTES = 5"

definition REQUEST_SPIKE_MULTIPLIER :: rat where
  "REQUEST_SPIKE_MULTIPLIER = 3"

definition RESPONSE_DEGRADATION_MULTIPLIER :: rat where
  "RESPONSE_DEGRADATION_MULTIPLIER = 2"

definition ERROR_CLUSTER_WINDOW_MINUTES :: int where
  "ERROR_CLUSTER_WINDOW_MINUTES = 5"

definition ERROR_CLUSTER_THRESHOLD :: int where
  "ERROR_CLUSTER_THRESHOLD = 10"

definition UNUSUAL_USER_SHARE_THRESHOLD :: rat where
  "UNUSUAL_USER_SHARE_THRESHOLD = 1 / 2"

definition DEFAULT_SLOW_ENDPOINT_THRESHOLD_MS :: rat where
  "DEFAULT_SLOW_ENDPOINT_THRESHOLD_MS = medium SEVERITY_THRESHOLDS_MS"

definition REQUIRED_FIELDS :: "string list" where
  "REQUIRED_FIELDS =
     [''timestamp'', ''endpoint'', ''method'', ''response_time_ms'', ''status_code'',
      ''user_id'', ''request_size_bytes'', ''response_size_bytes'']"

section \<open>utils.py\<close>

subsection \<open>Coercions and validation\<close>

text \<open>\<^verbatim>\<open>s.replace("Z", "+00:00")\<close>: every occurrence of the letter is replaced.\<close>

definition replace_Z :: "string \<Rightarrow> string" where
  "replace_Z s = concat (map (\<lambda>c. if c = CHR ''Z'' then ''+00:00'' else [c]) s)"

text \<open>
  \<^verbatim>\<open>parse_timestamp\<close>: a value that is not a string has no suitable \<^verbatim>\<open>replace\<close>, the
  exception is caught and the result is \<open>None\<close>.
\<close>

definition parse_timestamp :: "stdlib \<Rightarrow> pyval \<Rightarrow> datetime option" where
  "parse_timestamp L ts =
     (case ts of PyStr s \<Rightarrow> fromisoformat_utc L (replace_Z s) | _ \<Rightarrow> None)"

definition is_error_status :: "int \<Rightarrow> bool" where
  "is_error_status code \<longleftrightarrow> 400 \<le> code \<and> code \<le> 599"

text \<open>The built-in \<^verbatim>\<open>int(v)\<close>, \<open>None\<close> when it raises.\<close>

definition py_int :: "stdlib \<Rightarrow> pyval \<Rightarrow> int option" where
  "py_int L v =
     (case v of
        PyNone \<Rightarrow> None
      | PyInt i \<Rightarrow> Some i
      | PyStr s \<Rightarrow> int_of_str L s
      | PyOther i s \<Rightarrow> i)"

text \<open>The decimal digits of a natural number, and \<^verbatim>\<open>str(i)\<close> of an integer.\<close>

fun digits_of :: "nat \<Rightarrow> string" where
  "digits_of n =
     (if n < 10 then [char_of (48 + n)]
      else digits_of (n div 10) @ [char_of (48 + n mod 10)])"

definition str_of_int :: "int \<Rightarrow> string" where
  "str_of_int i = (if i < 0 then CHR ''-'' # digits_of (nat (- i)) else digits_of (nat i))"

text \<open>The built-in \<^verbatim>\<open>str(v)\<close>, \<open>None\<close> when it raises.\<close>

definition py_str :: "pyval \<Rightarrow> string option" where
  "py_str v =
     (case v of
        PyNone \<Rightarrow> Some ''None''
      | PyInt i \<Rightarrow> Some (str_of_int i)
      | PyStr s \<Rightarrow> Some s
      | PyOther i s \<Rightarrow> s)"

definition safe_int :: "stdlib \<Rightarrow> pyval \<Rightarrow> int option" where
  "safe_int L v =
     (case py_int L v of
        None \<Rightarrow> None
      | Some iv \<Rightarrow> if iv \<ge> 0 then Some iv else None)"

definition safe_str :: "pyval \<Rightarrow> string option" where
  "safe_str v =
     (case py_str v of
        None \<Rightarrow> None
      | Some s \<Rightarrow> if s \<noteq> [] then Some s else None)"

text \<open>\<^verbatim>\<open>str.upper()\<close> on the ASCII letters.\<close>

definition upper_char :: "char \<Rightarrow> char" where
  "upper_char c =
     (if CHR ''a'' \<le> c \<and> c \<le> CHR ''z'' then char_of (of_char c - (32::nat)) else c)"

definition upper :: "string \<Rightarrow> string" where
  "upper s = map upper_char s"

text \<open>
  \<^verbatim>\<open>validate_log_entry\<close>. The first loop returns \<open>None\<close> when a required field is not a
  key of the entry; after it every lookup \<^verbatim>\<open>entry[f]\<close> succeeds. All eight coercions
  are computed, then the record is rejected when one of them is \<open>None\<close>.
\<close>

definition validate_log_entry :: "stdlib \<Rightarrow> raw_entry \<Rightarrow> log_entry option" where
  "validate_log_entry L entry =
     (if \<exists>f \<in> set REQUIRED_FIELDS. entry f = None then None
      else
        let ts = parse_timestamp L (the (entry ''timestamp''));
            endpoint = safe_str (the (entry ''endpoint''));
            method = safe_str (the (entry ''method''));
            rt = safe_int L (the (entry ''response_time_ms''));
            status = safe_int L (the (entry ''status_code''));
            user = safe_str (the (entry ''user_id''));
            req_bytes = safe_int L (the (entry ''request_size_bytes''));
            resp_bytes = safe_int L (the (entry ''response_size_bytes''))
        in
          if ts = None \<or> endpoint = None \<or> method = None \<or> rt = None \<or> status = None
             \<or> user = None \<or> req_bytes = None \<or> resp_bytes = None
          then None
          else Some \<lparr>timestamp = the ts, endpoint = the endpoint,
                     http_method = upper (the method), response_time_ms = the rt,
                     status_code = the status, user_id = the user,
                     request_size_bytes = the req_bytes,
                     response_size_bytes = the resp_bytes\<rparr>)"

subsection \<open>Severity classification\<close>

definition severity_for_response_time :: "rat \<Rightarrow> thresholds \<Rightarrow> severity option" where
  "severity_for_response_time avg_ms th =
     (if avg_ms > critical th then Some Critical
      else if avg_ms > high th then Some High
      else if avg_ms > medium th then Some Medium
      else None)"

definition severity_for_error_rate :: "rat \<Rightarrow> thresholds \<Rightarrow> severity option" where
  "severity_for_error_rate err_rate_percent th =
     (if err_rate_percent > critical th then Some Critical
      else if err_rate_percent > high th then Some High
      else if err_rate_percent > medium th then Some Medium
      else None)"

text \<open>The order of the levels: none, medium, high, critical.\<close>

fun severity_rank :: "severity option \<Rightarrow> nat" where
  "severity_rank None = 0"
| "severity_rank (Some Medium) = 1"
| "severity_rank (Some High) = 2"
| "severity_rank (Some Critical) = 3"

subsection \<open>Hour buckets and time windows\<close>

definition two_digits :: "int \<Rightarrow> string" where
  "two_digits n = [char_of (48 + nat (n div 10)), char_of (48 + nat (n mod 10))]"

definition hour_of :: "datetime \<Rightarrow> int" where
  "hour_of dt = (dt div 3600000000) mod 24"

definition minute_of :: "datetime \<Rightarrow> int" where
  "minute_of dt = (dt div 60000000) mod 60"

definition hourly_bucket :: "datetime \<Rightarrow> string" where
  "hourly_bucket dt = two_digits (hour_of dt) @ '':00''"

definition timedelta_minutes :: "int \<Rightarrow> int" where
  "timedelta_minutes m = m * 60000000"

text \<open>
  The inner \<^verbatim>\<open>while timestamps[left] < window_start: left += 1\<close>. Reading at an index
  past the end raises \<^verbatim>\<open>IndexError\<close>.
\<close>

function advance_left :: "datetime list \<Rightarrow> datetime \<Rightarrow> nat \<Rightarrow> error + nat" where
  "advance_left timestamps window_start left =
     (if left \<ge> length timestamps then Inl IndexError
      else if timestamps ! left < window_start
           then advance_left timestamps window_start (left + 1)
           else Inr left)"
  by pat_completeness auto
termination
  by (relation "measure (\<lambda>(timestamps, window_start, left). length timestamps - left)") auto

text \<open>
  The outer \<^verbatim>\<open>for right in range(len(timestamps))\<close>, with the loop state \<open>left\<close> and
  \<open>counts\<close> passed along.
\<close>

function sliding_loop ::
  "datetime list \<Rightarrow> int \<Rightarrow> nat \<Rightarrow> nat \<Rightarrow> (datetime \<times> int) list \<Rightarrow> error + (datetime \<times> int) list"
where
  "sliding_loop timestamps window_minutes right left counts =
     (if right < length timestamps then
        let start_time = timestamps ! right;
            window_start = start_time - timedelta_minutes window_minutes
        in case advance_left timestamps window_start left of
             Inl e \<Rightarrow> Inl e
           | Inr left' \<Rightarrow>
               sliding_loop timestamps window_minutes (right + 1) left'
                 (counts @ [(start_time, int right - int left' + 1)])
      else Inr counts)"
  by pat_completeness auto
termination
  by (relation "measure (\<lambda>(timestamps, w, right, left, counts). length timestamps - right)") auto

definition sliding_window_counts :: "datetime list \<Rightarrow> int \<Rightarrow> error + (datetime \<times> int) list" where
  "sliding_window_counts timestamps window_minutes =
     sliding_loop timestamps window_minutes 0 0 []"


section \<open>function.py\<close>

subsection \<open>Counters\<close>

text \<open>
  \<^verbatim>\<open>collections.Counter\<close>: \<^verbatim>\<open>c[k] += 1\<close> keeps the position of a key that is present and
  appends a new key; \<^verbatim>\<open>Counter(iterable)\<close> counts from left to right.
\<close>

definition counter_incr :: "('k \<times> int) list \<Rightarrow> 'k \<Rightarrow> ('k \<times> int) list" where
  "counter_incr c k = AList.update k ((case map_of c k of None \<Rightarrow> 0 | Some n \<Rightarrow> n) + 1) c"

definition Counter :: "'k list \<Rightarrow> ('k \<times> int) list" where
  "Counter xs = fold (\<lambda>k c. counter_incr c k) xs []"

text \<open>
  \<^verbatim>\<open>most_common(1)\<close> is \<^verbatim>\<open>max(items, key=itemgetter(1))\<close>: the running best is replaced
  only by a strictly larger count, so among equal counts the first key in insertion
  order is returned.
\<close>

fun first_max :: "('k \<times> int) \<Rightarrow> ('k \<times> int) list \<Rightarrow> ('k \<times> int)" where
  "first_max best [] = best"
| "first_max best (x # xs) = first_max (if snd x > snd best then x else best) xs"

definition most_common_1 :: "('k \<times> int) list \<Rightarrow> ('k \<times> int) list" where
  "most_common_1 c = (case c of [] \<Rightarrow> [] | x # xs \<Rightarrow> [first_max x xs])"

text \<open>
  \<^verbatim>\<open>most_common(n)\<close> for \<open>n > 1\<close> is \<^verbatim>\<open>sorted(items, key=itemgetter(1), reverse=True)[:n]\<close>,
  a stable sort: equal counts keep their insertion order.
\<close>

definition most_common :: "nat \<Rightarrow> ('k \<times> int) list \<Rightarrow> ('k \<times> int) list" where
  "most_common n c = (if n = 1 then most_common_1 c else take n (sort_key (\<lambda>kc. - snd kc) c))"

definition most_common_status :: "(int \<times> int) list \<Rightarrow> int option" where
  "most_common_status counter =
     (if counter = [] then None else Some (fst (hd (most_common_1 counter))))"

subsection \<open>Rounding\<close>

text \<open>\<^verbatim>\<open>round(x, n)\<close> on the exact value, ties to the even neighbour.\<close>

definition round_half_even :: "rat \<Rightarrow> int" where
  "round_half_even x =
     (let f = \<lfloor>x\<rfloor>; d = x - of_int f
      in if d < 1 / 2 then f else if d > 1 / 2 then f + 1 else if even f then f else f + 1)"

definition py_round :: "rat \<Rightarrow> nat \<Rightarrow> rat" where
  "py_round x n = of_int (round_half_even (x * 10 ^ n)) / 10 ^ n"

text \<open>\<^verbatim>\<open>int(x)\<close> of a float truncates towards zero.\<close>

definition py_trunc :: "rat \<Rightarrow> int" where
  "py_trunc x = (if x \<ge> 0 then \<lfloor>x\<rfloor> else \<lceil>x\<rceil>)"

subsection \<open>Summary\<close>

record summary =
  total_requests :: int
  time_range_start :: "datetime option"
  time_range_end :: "datetime option"
  s_avg_response_time_ms :: rat
  s_error_rate_percentage :: rat

text \<open>
  \<^verbatim>\<open>_calc_summary\<close>. \<^verbatim>\<open>min\<close> and \<^verbatim>\<open>max\<close> are applied to a non-empty list here
  (\<open>total \<noteq> 0\<close>).
\<close>

definition calc_summary :: "log_entry list \<Rightarrow> summary" where
  "calc_summary valid_logs =
     (let total = int (length valid_logs) in
      if total = 0 then
        \<lparr>total_requests = 0, time_range_start = None, time_range_end = None,
         s_avg_response_time_ms = 0, s_error_rate_percentage = 0\<rparr>
      else
        let timestamps = map timestamp valid_logs;
            start = Min (set timestamps);
            finish = Max (set timestamps);
            sum_rt = sum_list (map response_time_ms valid_logs);
            avg_rt = of_int sum_rt / of_int total;
            errors = int (length (filter (\<lambda>l. 400 \<le> status_code l \<and> status_code l \<le> 599) valid_logs));
            err_rate = (if total \<noteq> 0 then (of_int errors / of_int total) * 100 else 0)
        in \<lparr>total_requests = total, time_range_start = Some start, time_range_end = Some finish,
            s_avg_response_time_ms = py_round avg_rt 3,
            s_error_rate_percentage = py_round err_rate 3\<rparr>)"

subsection \<open>Per-endpoint aggregation\<close>

text \<open>
  The accumulator of \<^verbatim>\<open>aggregate_by_endpoint\<close>. The initial \<^verbatim>\<open>-math.inf\<close> of
  \<^verbatim>\<open>slowest\<close> and \<^verbatim>\<open>math.inf\<close> of \<^verbatim>\<open>fastest\<close> are \<open>None\<close>.
\<close>

record agg =
  agg_count :: int
  agg_sum_rt :: int
  agg_slowest :: "int option"
  agg_fastest :: "int option"
  agg_error_count :: int
  agg_status_counter :: "(int \<times> int) list"

definition agg_init :: agg where
  "agg_init = \<lparr>agg_count = 0, agg_sum_rt = 0, agg_slowest = None, agg_fastest = None,
               agg_error_count = 0, agg_status_counter = []\<rparr>"

definition agg_add :: "agg \<Rightarrow> log_entry \<Rightarrow> agg" where
  "agg_add s lg =
     \<lparr>agg_count = agg_count s + 1,
      agg_sum_rt = agg_sum_rt s + response_time_ms lg,
      agg_slowest = Some (case agg_slowest s of None \<Rightarrow> response_time_ms lg
                          | Some m \<Rightarrow> max m (response_time_ms lg)),
      agg_fastest = Some (case agg_fastest s of None \<Rightarrow> response_time_ms lg
                          | Some m \<Rightarrow> min m (response_time_ms lg)),
      agg_error_count = (if is_error_status (status_code lg) then agg_error_count s + 1
                         else agg_error_count s),
      agg_status_counter = counter_incr (agg_status_counter s) (status_code lg)\<rparr>"

definition aggregate_step :: "log_entry \<Rightarrow> (string \<times> agg) list \<Rightarrow> (string \<times> agg) list" where
  "aggregate_step lg stats =
     (let ep = endpoint lg;
          s = (case map_of stats ep of None \<Rightarrow> agg_init | Some s \<Rightarrow> s)
      in AList.update ep (agg_add s lg) stats)"

definition aggregate_by_endpoint :: "log_entry list \<Rightarrow> (string \<times> agg) list" where
  "aggregate_by_endpoint valid_logs = fold aggregate_step valid_logs []"

record endpoint_stat =
  es_endpoint :: string
  request_count :: int
  avg_response_time_ms :: rat
  slowest_request_ms :: int
  fastest_request_ms :: int
  error_count :: int
  es_most_common_status :: "int option"

definition endpoint_stat_of :: "string \<times> agg \<Rightarrow> endpoint_stat" where
  "endpoint_stat_of p =
     (let ep = fst p; s = snd p;
          avg_ms = (if agg_count s \<noteq> 0 then of_int (agg_sum_rt s) / of_int (agg_count s) else 0)
      in \<lparr>es_endpoint = ep,
          request_count = agg_count s,
          avg_response_time_ms = py_round avg_ms 3,
          slowest_request_ms = (case agg_slowest s of None \<Rightarrow> 0 | Some m \<Rightarrow> m),
          fastest_request_ms = (case agg_fastest s of None \<Rightarrow> 0 | Some m \<Rightarrow> m),
          error_count = agg_error_count s,
          es_most_common_status = most_common_status (agg_status_counter s)\<rparr>)"

text \<open>\<^verbatim>\<open>_calc_endpoint_stats\<close>; \<^verbatim>\<open>list.sort(key=...)\<close> is stable, as \<open>sort_key\<close> is.\<close>

definition calc_endpoint_stats :: "log_entry list \<Rightarrow> endpoint_stat list" where
  "calc_endpoint_stats valid_logs =
     sort_key es_endpoint (map endpoint_stat_of (aggregate_by_endpoint valid_logs))"

subsection \<open>Performance issues and recommendations\<close>

datatype issue =
  SlowEndpoint string rat rat severity
| HighErrorRate string rat severity

definition issues_of :: "endpoint_stat \<Rightarrow> issue list" where
  "issues_of s =
     (let sev = severity_for_response_time (avg_response_time_ms s) SEVERITY_THRESHOLDS_MS;
          slow = (case sev of None \<Rightarrow> []
                  | Some v \<Rightarrow> [SlowEndpoint (es_endpoint s) (avg_response_time_ms s)
                                 DEFAULT_SLOW_ENDPOINT_THRESHOLD_MS v]);
          total = request_count s;
          err_rate = (if total \<noteq> 0 then of_int (error_count s) / of_int total * 100 else 0);
          err_sev = severity_for_error_rate err_rate ERROR_RATE_THRESHOLDS_PERCENT;
          errs = (case err_sev of None \<Rightarrow> []
                  | Some v \<Rightarrow> [HighErrorRate (es_endpoint s) (py_round err_rate 3) v])
      in slow @ errs)"

definition detect_performance_issues :: "endpoint_stat list \<Rightarrow> issue list" where
  "detect_performance_issues endpoint_stats = concat (map issues_of endpoint_stats)"

text \<open>
  A recommendation is a formatted line; the model keeps the values that the
  f-string prints: endpoint, average and threshold, or endpoint and rounded error rate.
\<close>

datatype recommendation =
  Investigate string rat rat
| Alert string rat

definition recommendations_of :: "endpoint_stat \<Rightarrow> recommendation list" where
  "recommendations_of s =
     (let slow = (if avg_response_time_ms s > medium SEVERITY_THRESHOLDS_MS
                  then [Investigate (es_endpoint s) (avg_response_time_ms s)
                          (medium SEVERITY_THRESHOLDS_MS)]
                  else []);
          total = request_count s;
          err_rate = (if total \<noteq> 0 then of_int (error_count s) / of_int total * 100 else 0);
          errs = (if err_rate > medium ERROR_RATE_THRESHOLDS_PERCENT
                  then [Alert (es_endpoint s) (py_round err_rate 3)] else [])
      in slow @ errs)"

definition recommendations :: "summary \<Rightarrow> endpoint_stat list \<Rightarrow> recommendation list" where
  "recommendations summ endpoint_stats = concat (map recommendations_of endpoint_stats)"

subsection \<open>Hourly distribution and top users\<close>

text \<open>
  \<^verbatim>\<open>dict(sorted(dist.items()))\<close>: the keys of a dict are distinct, so sorting the items
  sorts by key.
\<close>

definition hourly_distribution :: "log_entry list \<Rightarrow> (string \<times> int) list" where
  "hourly_distribution valid_logs =
     sort_key fst (Counter (map (\<lambda>l. hourly_bucket (timestamp l)) valid_logs))"

definition top_users :: "log_entry list \<Rightarrow> nat \<Rightarrow> (string \<times> int) list" where
  "top_users valid_logs top_n = most_common top_n (Counter (map user_id valid_logs))"


subsection \<open>Option A: cost estimation\<close>

fun memory_cost_in :: "(int \<times> int option \<times> rat) list \<Rightarrow> int \<Rightarrow> rat" where
  "memory_cost_in [] bytes_count = 0"
| "memory_cost_in ((lo, hi, cost) # rest) bytes_count =
     (if lo \<le> bytes_count \<and> (case hi of None \<Rightarrow> True | Some h \<Rightarrow> bytes_count < h)
      then cost else memory_cost_in rest bytes_count)"

definition memory_cost :: "int \<Rightarrow> rat" where
  "memory_cost bytes_count = memory_cost_in MEMORY_COST_BRACKETS bytes_count"

record cost_report =
  total_cost_usd :: rat
  request_costs :: rat
  execution_costs :: rat
  memory_costs :: rat
  cost_by_endpoint :: "(string \<times> rat \<times> rat) list"
  optimization_potential_usd :: rat

definition total_request_cost :: "log_entry list \<Rightarrow> rat" where
  "total_request_cost valid_logs = of_nat (length valid_logs) * COST_PER_REQUEST_USD"

definition total_execution_cost :: "log_entry list \<Rightarrow> rat" where
  "total_execution_cost valid_logs =
     sum_list (map (\<lambda>l. of_int (response_time_ms l) * COST_PER_MS_EXECUTION_USD) valid_logs)"

definition total_memory_cost :: "log_entry list \<Rightarrow> rat" where
  "total_memory_cost valid_logs =
     sum_list (map (\<lambda>l. memory_cost (response_size_bytes l)) valid_logs)"

text \<open>One round of the loop that fills \<^verbatim>\<open>cost_by_ep_map\<close>: a pair is \<open>(count, total_cost)\<close>.\<close>

definition cost_step :: "log_entry \<Rightarrow> (string \<times> int \<times> rat) list \<Rightarrow> (string \<times> int \<times> rat) list" where
  "cost_step l m =
     (let ep = endpoint l;
          per_req = COST_PER_REQUEST_USD;
          exec_cost = of_int (response_time_ms l) * COST_PER_MS_EXECUTION_USD;
          mem_cost = memory_cost (response_size_bytes l);
          total = per_req + exec_cost + mem_cost;
          d = (case map_of m ep of None \<Rightarrow> (0, 0) | Some d \<Rightarrow> d)
      in AList.update ep (fst d + 1, snd d + total) m)"

definition cost_entry :: "string \<times> int \<times> rat \<Rightarrow> string \<times> rat \<times> rat" where
  "cost_entry p =
     (let ep = fst p; c = fst (snd p); t = snd (snd p);
          per_request = (if c \<noteq> 0 then t / of_int c else 0)
      in (ep, py_round t 6, py_round per_request 6))"

definition savings_step :: "endpoint_stat \<Rightarrow> rat \<Rightarrow> rat" where
  "savings_step s potential_savings =
     (if avg_response_time_ms s > medium SEVERITY_THRESHOLDS_MS
      then potential_savings
             + (avg_response_time_ms s - medium SEVERITY_THRESHOLDS_MS)
               * COST_PER_MS_EXECUTION_USD * of_int (request_count s)
      else potential_savings)"

text \<open>\<^verbatim>\<open>_cost_analysis\<close>.\<close>

definition cost_analysis :: "log_entry list \<Rightarrow> endpoint_stat list \<Rightarrow> cost_report" where
  "cost_analysis valid_logs endpoint_stats =
     (let cost_by_ep_map = fold cost_step valid_logs [];
          by_endpoint = map cost_entry (sort_key fst cost_by_ep_map);
          total_cost = total_request_cost valid_logs + total_execution_cost valid_logs
                       + total_memory_cost valid_logs;
          potential_savings = fold savings_step endpoint_stats 0
      in \<lparr>total_cost_usd = py_round total_cost 6,
          request_costs = py_round (total_request_cost valid_logs) 6,
          execution_costs = py_round (total_execution_cost valid_logs) 6,
          memory_costs = py_round (total_memory_cost valid_logs) 6,
          cost_by_endpoint = by_endpoint,
          optimization_potential_usd = py_round potential_savings 6\<rparr>)"

subsection \<open>Option B: anomaly detection\<close>

text \<open>
  The four kinds of finding. \<open>RequestSpike endpoint timestamp normal_rate actual_rate
  severity\<close>; \<open>ResponseTimeDegradation endpoint recent_avg_ms overall_avg_ms severity\<close>;
  \<open>ErrorCluster endpoint time_window error_count severity\<close>;
  \<open>UnusualUserBehavior user_id share_percentage severity\<close>.
\<close>

datatype anomaly =
  RequestSpike string datetime int int severity
| ResponseTimeDegradation string rat rat severity
| ErrorCluster string string int severity
| UnusualUserBehavior string rat severity

text \<open>
  \<^verbatim>\<open>d[k].append(v)\<close> on a \<^verbatim>\<open>defaultdict(list)\<close>, and the grouping loops built from it.
\<close>

definition group_append :: "'k \<Rightarrow> 'v \<Rightarrow> ('k \<times> 'v list) list \<Rightarrow> ('k \<times> 'v list) list" where
  "group_append k v d = AList.update k ((case map_of d k of None \<Rightarrow> [] | Some vs \<Rightarrow> vs) @ [v]) d"

definition by_endpoint_ts :: "log_entry list \<Rightarrow> (string \<times> datetime list) list" where
  "by_endpoint_ts valid_logs = fold (\<lambda>l. group_append (endpoint l) (timestamp l)) valid_logs []"

definition by_endpoint_logs :: "log_entry list \<Rightarrow> (string \<times> log_entry list) list" where
  "by_endpoint_logs valid_logs = fold (\<lambda>l. group_append (endpoint l) l) valid_logs []"

definition error_ts :: "log_entry list \<Rightarrow> (string \<times> datetime list) list" where
  "error_ts valid_logs =
     fold (\<lambda>l d. if 400 \<le> status_code l \<and> status_code l \<le> 599
                  then group_append (endpoint l) (timestamp l) d else d) valid_logs []"

text \<open>
  The scan of one endpoint for a request spike: the body of the first
  \<^verbatim>\<open>for ep, ts_list in by_endpoint_ts.items()\<close>. \<^verbatim>\<open>max\<close> of an empty list raises.
  \<open>List.find\<close> returns the first pair that satisfies the test, which is where the
  source appends and breaks.
\<close>

definition normal_rate_of :: "datetime list \<Rightarrow> rat" where
  "normal_rate_of ts_list =
     (let d = (Max (set ts_list) - Min (set ts_list)) div 60000000;
          duration_minutes = max 1 (if d \<noteq> 0 then d else 1);
          windows = max 1 (of_int duration_minutes / of_int REQUEST_SPIKE_WINDOW_MINUTES)
      in of_nat (length ts_list) / windows)"

definition is_spike :: "rat \<Rightarrow> datetime \<times> int \<Rightarrow> bool" where
  "is_spike normal_rate p \<longleftrightarrow>
     of_int (snd p) > REQUEST_SPIKE_MULTIPLIER * normal_rate \<and> snd p \<ge> 1"

definition spike_anomaly :: "string \<Rightarrow> rat \<Rightarrow> datetime \<times> int \<Rightarrow> anomaly" where
  "spike_anomaly ep normal_rate p =
     RequestSpike ep (fst p) (py_trunc normal_rate) (snd p)
       (if of_int (snd p) > 2 * REQUEST_SPIKE_MULTIPLIER * normal_rate then High else Medium)"

definition request_spike :: "string \<Rightarrow> datetime list \<Rightarrow> error + anomaly list" where
  "request_spike ep unsorted =
     (let ts_list = sort unsorted in
      if ts_list = [] then Inl ValueError
      else
        let normal_rate = normal_rate_of ts_list
        in case sliding_window_counts ts_list REQUEST_SPIKE_WINDOW_MINUTES of
             Inl e \<Rightarrow> Inl e
           | Inr counts \<Rightarrow>
               Inr (case List.find (is_spike normal_rate) counts of
                      None \<Rightarrow> []
                    | Some p \<Rightarrow> [spike_anomaly ep normal_rate p]))"

text \<open>A loop over the items of a dict whose body may raise: the first exception ends it.\<close>

fun for_items :: "('k \<Rightarrow> 'v \<Rightarrow> error + 'a list) \<Rightarrow> ('k \<times> 'v) list \<Rightarrow> error + 'a list" where
  "for_items body [] = Inr []"
| "for_items body ((k, v) # rest) =
     (case body k v of
        Inl e \<Rightarrow> Inl e
      | Inr found \<Rightarrow>
          (case for_items body rest of Inl e \<Rightarrow> Inl e | Inr later \<Rightarrow> Inr (found @ later)))"

text \<open>
  Response time degradation of one endpoint. \<^verbatim>\<open>int(n * 0.9)\<close> is the truncation of
  \<open>9 n / 10\<close>; for \<open>n \<ge> 5\<close> the slice \<open>recent\<close> is not empty.
\<close>

definition degradation :: "string \<Rightarrow> log_entry list \<Rightarrow> anomaly list" where
  "degradation ep unsorted =
     (let logs = sort_key timestamp unsorted;
          n = length logs
      in if n < 5 then []
         else
           let recent = drop (nat (max 0 (py_trunc (of_nat n * (9 / 10))))) logs;
               recent_avg = of_int (sum_list (map response_time_ms recent)) / of_nat (length recent);
               overall_avg = of_int (sum_list (map response_time_ms logs)) / of_nat n
           in if recent_avg > RESPONSE_DEGRADATION_MULTIPLIER * overall_avg
                 \<and> recent_avg > medium SEVERITY_THRESHOLDS_MS
              then [ResponseTimeDegradation ep (py_round recent_avg 3) (py_round overall_avg 3)
                      (if recent_avg > RESPONSE_DEGRADATION_MULTIPLIER * overall_avg * (3 / 2)
                       then High else Medium)]
              else [])"

text \<open>\<^verbatim>\<open>strftime('%H:%M')\<close> and the label of an error cluster's window.\<close>

definition hh_mm :: "datetime \<Rightarrow> string" where
  "hh_mm t = two_digits (hour_of t) @ '':'' @ two_digits (minute_of t)"

definition cluster_anomaly :: "string \<Rightarrow> datetime \<times> int \<Rightarrow> anomaly" where
  "cluster_anomaly ep p =
     ErrorCluster ep
       (hh_mm (fst p - timedelta_minutes ERROR_CLUSTER_WINDOW_MINUTES) @ ''-'' @ hh_mm (fst p))
       (snd p)
       (if snd p \<ge> ERROR_CLUSTER_THRESHOLD * 2 then Critical else High)"

definition error_cluster :: "string \<Rightarrow> datetime list \<Rightarrow> error + anomaly list" where
  "error_cluster ep unsorted =
     (let ts_list = sort unsorted
      in case sliding_window_counts ts_list ERROR_CLUSTER_WINDOW_MINUTES of
           Inl e \<Rightarrow> Inl e
         | Inr counts \<Rightarrow>
             Inr (case List.find (\<lambda>p. snd p \<ge> ERROR_CLUSTER_THRESHOLD) counts of
                    None \<Rightarrow> []
                  | Some p \<Rightarrow> [cluster_anomaly ep p]))"

text \<open>
  Unusual user behaviour; \<^verbatim>\<open>most_common(1)[0]\<close> raises \<^verbatim>\<open>IndexError\<close> on an empty
  counter.
\<close>

definition unusual_user :: "log_entry list \<Rightarrow> error + anomaly list" where
  "unusual_user valid_logs =
     (let total = int (length valid_logs);
          user_counts = Counter (map user_id valid_logs)
      in if total > 0 then
           (case most_common 1 user_counts of
              [] \<Rightarrow> Inl IndexError
            | entry # _ \<Rightarrow>
                let share = of_int (snd entry) / of_int total
                in if share > UNUSUAL_USER_SHARE_THRESHOLD
                   then Inr [UnusualUserBehavior (fst entry) (py_round (share * 100) 3)
                               (if share > 7 / 10 then High else Medium)]
                   else Inr [])
         else Inr [])"

text \<open>\<^verbatim>\<open>_anomalies\<close>: the four heuristics in the order of the source.\<close>

definition anomalies :: "log_entry list \<Rightarrow> endpoint_stat list \<Rightarrow> error + anomaly list" where
  "anomalies valid_logs endpoint_stats =
     (if valid_logs = [] then Inr []
      else
        (case for_items request_spike (by_endpoint_ts valid_logs) of
           Inl e \<Rightarrow> Inl e
         | Inr spikes \<Rightarrow>
             (let degradations =
                    concat (map (\<lambda>(ep, logs). degradation ep logs) (by_endpoint_logs valid_logs))
              in (case for_items error_cluster (error_ts valid_logs) of
                    Inl e \<Rightarrow> Inl e
                  | Inr clusters \<Rightarrow>
                      (case unusual_user valid_logs of
                         Inl e \<Rightarrow> Inl e
                       | Inr users \<Rightarrow> Inr (spikes @ degradations @ clusters @ users))))))"

subsection \<open>The report\<close>

record report =
  rep_summary :: summary
  rep_endpoint_stats :: "endpoint_stat list"
  rep_performance_issues :: "issue list"
  rep_recommendations :: "recommendation list"
  rep_hourly_distribution :: "(string \<times> int) list"
  rep_top_users_by_requests :: "(string \<times> int) list"
  rep_cost_analysis :: cost_report
  rep_anomalies :: "anomaly list"

text \<open>The first loop of \<^verbatim>\<open>analyze_api_logs\<close>: the records that validate, in input order.\<close>

definition valid_logs_of :: "stdlib \<Rightarrow> raw_entry list \<Rightarrow> log_entry list" where
  "valid_logs_of L logs = List.map_filter (validate_log_entry L) logs"

definition analyze_api_logs :: "stdlib \<Rightarrow> raw_entry list \<Rightarrow> error + report" where
  "analyze_api_logs L logs =
     (let valid_logs = valid_logs_of L logs;
          summ = calc_summary valid_logs;
          endpoint_stats = calc_endpoint_stats valid_logs;
          performance_issues = detect_performance_issues endpoint_stats;
          recs = recommendations summ endpoint_stats;
          hourly = hourly_distribution valid_logs;
          top_users_by_requests = top_users valid_logs 5;
          costs = cost_analysis valid_logs endpoint_stats
      in case anomalies valid_logs endpoint_stats of
           Inl e \<Rightarrow> Inl e
         | Inr found \<Rightarrow>
             Inr \<lparr>rep_summary = summ,
                  rep_endpoint_stats = endpoint_stats,
                  rep_performance_issues = performance_issues,
                  rep_recommendations = recs,
                  rep_hourly_distribution = hourly,
                  rep_top_users_by_requests = top_users_by_requests,
                  rep_cost_analysis = costs,
                  rep_anomalies = found\<rparr>)"


section \<open>Reference notions\<close>

text \<open>
  These are not taken from the source: they say in closed form what a window count is,
  to compare the two-pointer scan with. \<open>window_count ts w r\<close> is the number of
  positions \<open>i \<le> r\<close> whose timestamp is not more than \<open>w\<close> minutes before the one at
  position \<open>r\<close>; \<open>closed_interval_counts\<close> pairs every timestamp \<open>t\<close> with the number of
  timestamps of the whole list in the closed interval from \<open>t - w\<close> to \<open>t\<close>.
\<close>

definition window_count :: "datetime list \<Rightarrow> int \<Rightarrow> nat \<Rightarrow> int" where
  "window_count ts w r =
     int (length (filter (\<lambda>i. ts ! r - timedelta_minutes w \<le> ts ! i) [0..<Suc r]))"

definition window_counts :: "datetime list \<Rightarrow> int \<Rightarrow> (datetime \<times> int) list" where
  "window_counts ts w = map (\<lambda>r. (ts ! r, window_count ts w r)) [0..<length ts]"


text \<open>
  The keys of a dict in insertion order are the first occurrences of the keys in the
  order of the input.
\<close>

definition first_occurrences :: "'a list \<Rightarrow> 'a list" where
  "first_occurrences xs = rev (remdups (rev xs))"

text \<open>
  What the anomaly loops find, said without the dicts and without the two-pointer scan:
  per endpoint, on its ascending timestamps, the first window over the threshold; and
  the user with the highest request count (the first such user in input order).
\<close>

definition is_error_entry :: "log_entry \<Rightarrow> bool" where
  "is_error_entry l \<longleftrightarrow> 400 \<le> status_code l \<and> status_code l \<le> 599"

definition endpoint_timestamps :: "log_entry list \<Rightarrow> string \<Rightarrow> datetime list" where
  "endpoint_timestamps logs ep = sort (map timestamp (filter (\<lambda>l. endpoint l = ep) logs))"

definition endpoint_error_timestamps :: "log_entry list \<Rightarrow> string \<Rightarrow> datetime list" where
  "endpoint_error_timestamps logs ep =
     sort (map timestamp (filter (\<lambda>l. endpoint l = ep) (filter is_error_entry logs)))"

definition spike_findings :: "string \<Rightarrow> datetime list \<Rightarrow> anomaly list" where
  "spike_findings ep ts =
     (case List.find (is_spike (normal_rate_of ts)) (window_counts ts REQUEST_SPIKE_WINDOW_MINUTES) of
        None \<Rightarrow> []
      | Some p \<Rightarrow> [spike_anomaly ep (normal_rate_of ts) p])"

definition cluster_findings :: "string \<Rightarrow> datetime list \<Rightarrow> anomaly list" where
  "cluster_findings ep ts =
     (case List.find (\<lambda>p. snd p \<ge> ERROR_CLUSTER_THRESHOLD)
             (window_counts ts ERROR_CLUSTER_WINDOW_MINUTES) of
        None \<Rightarrow> []
      | Some p \<Rightarrow> [cluster_anomaly ep p])"

definition user_count :: "log_entry list \<Rightarrow> string \<Rightarrow> int" where
  "user_count logs u = int (length (filter (\<lambda>l. user_id l = u) logs))"

definition top_count :: "log_entry list \<Rightarrow> int" where
  "top_count logs = Max (set (map (user_count logs) (map user_id logs)))"

definition top_user :: "log_entry list \<Rightarrow> string" where
  "top_user logs = hd (filter (\<lambda>u. user_count logs u = top_count logs) (map user_id logs))"

definition user_findings :: "log_entry list \<Rightarrow> anomaly list" where
  "user_findings logs =
     (let share = of_int (top_count logs) / of_nat (length logs)
      in if logs \<noteq> [] \<and> share > 1 / 2
         then [UnusualUserBehavior (top_user logs) (py_round (share * 100) 3)
                 (if share > 7 / 10 then High else Medium)]
         else [])"

definition all_spike_findings :: "log_entry list \<Rightarrow> anomaly list" where
  "all_spike_findings logs =
     concat (map (\<lambda>ep. spike_findings ep (endpoint_timestamps logs ep))
               (first_occurrences (map endpoint logs)))"

definition all_degradations :: "log_entry list \<Rightarrow> anomaly list" where
  "all_degradations logs =
     concat (map (\<lambda>ep. degradation ep (filter (\<lambda>l. endpoint l = ep) logs))
               (first_occurrences (map endpoint logs)))"

definition all_cluster_findings :: "log_entry list \<Rightarrow> anomaly list" where
  "all_cluster_findings logs =
     concat (map (\<lambda>ep. cluster_findings ep (endpoint_error_timestamps logs ep))
               (first_occurrences (map endpoint (filter is_error_entry logs))))"

text \<open>Selecting the findings of one kind from the list of anomalies.\<close>

definition is_request_spike_of :: "string \<Rightarrow> anomaly \<Rightarrow> bool" where
  "is_request_spike_of ep a = (case a of RequestSpike e t n c s \<Rightarrow> e = ep | _ \<Rightarrow> False)"





definition empty_report :: report where
  "empty_report =
     \<lparr>rep_summary = \<lparr>total_requests = 0, time_range_start = None, time_range_end = None,
                       s_avg_response_time_ms = 0, s_error_rate_percentage = 0\<rparr>,
      rep_endpoint_stats = [],
      rep_performance_issues = [],
      rep_recommendations = [],
      rep_hourly_distribution = [],
      rep_top_users_by_requests = [],
      rep_cost_analysis = \<lparr>total_cost_usd = 0, request_costs = 0, execution_costs = 0,
                             memory_costs = 0, cost_by_endpoint = [],
                             optimization_potential_usd = 0\<rparr>,
      rep_anomalies = []\<rparr>"

section \<open>Example inputs\<close>

text \<open>
  An instance of the library parameter for the worked examples: on the timestamps
  \<^verbatim>\<open>2025-01-15THH:MM:SS+00:00\<close> it returns the instant that
  \<^verbatim>\<open>datetime.fromisoformat\<close> returns, and \<open>None\<close> on every other string; no string is
  read as an integer. The raw records are those of the test suite.
\<close>

definition digit_val :: "char \<Rightarrow> int option" where
  "digit_val c = (if CHR ''0'' \<le> c \<and> c \<le> CHR ''9'' then Some (int (of_char c) - 48) else None)"

definition fromisoformat_2025_01_15 :: "string \<Rightarrow> datetime option" where
  "fromisoformat_2025_01_15 s =
     (if length s = 25 \<and> take 11 s = ''2025-01-15T'' \<and> drop 19 s = ''+00:00''
         \<and> s ! 13 = CHR '':'' \<and> s ! 16 = CHR '':''
      then (case map digit_val [s ! 11, s ! 12, s ! 14, s ! 15, s ! 17, s ! 18] of
              [Some a, Some b, Some c, Some d, Some e, Some f] \<Rightarrow>
                if 10 * a + b < 24 \<and> 10 * c + d < 60 \<and> 10 * e + f < 60
                then Some (1736899200000000
                           + ((10 * a + b) * 3600 + (10 * c + d) * 60 + (10 * e + f)) * 1000000)
                else None
            | _ \<Rightarrow> None)
      else None)"

definition example_stdlib :: stdlib where
  "example_stdlib = \<lparr>int_of_str = (\<lambda>s. None), fromisoformat_utc = fromisoformat_2025_01_15\<rparr>"

definition raw_entry_of ::
  "string \<Rightarrow> string \<Rightarrow> int \<Rightarrow> int \<Rightarrow> string \<Rightarrow> raw_entry" where
  "raw_entry_of ts ep rt status user =
     [''timestamp'' \<mapsto> PyStr ts, ''endpoint'' \<mapsto> PyStr ep, ''method'' \<mapsto> PyStr ''GET'',
      ''response_time_ms'' \<mapsto> PyInt rt, ''status_code'' \<mapsto> PyInt status,
      ''user_id'' \<mapsto> PyStr user, ''request_size_bytes'' \<mapsto> PyInt 512,
      ''response_size_bytes'' \<mapsto> PyInt 2048]"

definition good_entry :: raw_entry where
  "good_entry = raw_entry_of ''2025-01-15T10:00:00Z'' ''/api/users'' 150 200 ''user_1''"

definition entry_without_status :: raw_entry where
  "entry_without_status = good_entry (''status_code'' := None)"

definition entry_bad_timestamp :: raw_entry where
  "entry_bad_timestamp = raw_entry_of ''bad-ts'' ''/api/users'' 150 200 ''user_1''"

definition entry_negative_time :: raw_entry where
  "entry_negative_time = raw_entry_of ''2025-01-15T10:00:00Z'' ''/api/users'' (- 10) 200 ''user_1''"





section \<open>Verified properties\<close>

subsection \<open>Severity classification\<close>

text \<open>
  C6. Both classifiers return critical exactly for a value strictly above the critical
  threshold, otherwise high exactly for a value strictly above the high threshold,
  otherwise medium exactly for a value strictly above the medium threshold, otherwise
  nothing; for every threshold set, a value equal to a threshold does not get that
  threshold's level.
\<close>

theorem severity_strict_thresholds:
  "(severity_for_response_time v th = Some Critical \<longleftrightarrow> v > critical th) \<and>
   (severity_for_response_time v th = Some High \<longleftrightarrow> \<not> v > critical th \<and> v > high th) \<and>
   (severity_for_response_time v th = Some Medium \<longleftrightarrow>
      \<not> v > critical th \<and> \<not> v > high th \<and> v > medium th) \<and>
   (severity_for_response_time v th = None \<longleftrightarrow>
      \<not> v > critical th \<and> \<not> v > high th \<and> \<not> v > medium th) \<and>
   (severity_for_error_rate v th = Some Critical \<longleftrightarrow> v > critical th) \<and>
   (severity_for_error_rate v th = Some High \<longleftrightarrow> \<not> v > critical th \<and> v > high th) \<and>
   (severity_for_error_rate v th = Some Medium \<longleftrightarrow>
      \<not> v > critical th \<and> \<not> v > high th \<and> v > medium th) \<and>
   (severity_for_error_rate v th = None \<longleftrightarrow>
      \<not> v > critical th \<and> \<not> v > high th \<and> \<not> v > medium th) \<and>
   severity_for_response_time (critical th) th \<noteq> Some Critical \<and>
   severity_for_response_time (high th) th \<noteq> Some High \<and>
   severity_for_response_time (medium th) th \<noteq> Some Medium \<and>
   severity_for_error_rate (critical th) th \<noteq> Some Critical \<and>
   severity_for_error_rate (high th) th \<noteq> Some High \<and>
   severity_for_error_rate (medium th) th \<noteq> Some Medium"
  by (simp add: severity_for_response_time_def severity_for_error_rate_def)

theorem severity_strict_thresholds_witness:
  "severity_for_response_time 2000 SEVERITY_THRESHOLDS_MS = Some High \<and>
   severity_for_response_time 1000 SEVERITY_THRESHOLDS_MS = Some Medium \<and>
   severity_for_response_time 500 SEVERITY_THRESHOLDS_MS = None \<and>
   severity_for_error_rate 15 ERROR_RATE_THRESHOLDS_PERCENT = Some High \<and>
   severity_for_error_rate 10 ERROR_RATE_THRESHOLDS_PERCENT = Some Medium \<and>
   severity_for_error_rate 5 ERROR_RATE_THRESHOLDS_PERCENT = None"
  using severity_strict_thresholds [of 2000 SEVERITY_THRESHOLDS_MS]
    severity_strict_thresholds [of 1000 SEVERITY_THRESHOLDS_MS]
    severity_strict_thresholds [of 500 SEVERITY_THRESHOLDS_MS]
    severity_strict_thresholds [of 15 ERROR_RATE_THRESHOLDS_PERCENT]
    severity_strict_thresholds [of 10 ERROR_RATE_THRESHOLDS_PERCENT]
    severity_strict_thresholds [of 5 ERROR_RATE_THRESHOLDS_PERCENT]
  by (simp add: SEVERITY_THRESHOLDS_MS_def ERROR_RATE_THRESHOLDS_PERCENT_def)

text \<open>
  C7. With the configured thresholds both classifications are monotone in the order
  none, medium, high, critical, and a value strictly above the critical threshold is
  classified critical.
\<close>

theorem severity_monotone:
  "(v1 \<le> v2 \<longrightarrow>
      severity_rank (severity_for_response_time v1 SEVERITY_THRESHOLDS_MS)
        \<le> severity_rank (severity_for_response_time v2 SEVERITY_THRESHOLDS_MS) \<and>
      severity_rank (severity_for_error_rate v1 ERROR_RATE_THRESHOLDS_PERCENT)
        \<le> severity_rank (severity_for_error_rate v2 ERROR_RATE_THRESHOLDS_PERCENT)) \<and>
   (v > critical SEVERITY_THRESHOLDS_MS \<longrightarrow>
      severity_for_response_time v SEVERITY_THRESHOLDS_MS = Some Critical) \<and>
   (v > critical ERROR_RATE_THRESHOLDS_PERCENT \<longrightarrow>
      severity_for_error_rate v ERROR_RATE_THRESHOLDS_PERCENT = Some Critical)"
  by (simp add: severity_for_response_time_def severity_for_error_rate_def
      SEVERITY_THRESHOLDS_MS_def ERROR_RATE_THRESHOLDS_PERCENT_def)

theorem severity_monotone_witness:
  "(600::rat) \<le> 1500 \<and>
   severity_rank (severity_for_response_time 600 SEVERITY_THRESHOLDS_MS)
     \<le> severity_rank (severity_for_response_time 1500 SEVERITY_THRESHOLDS_MS) \<and>
   (2500::rat) > critical SEVERITY_THRESHOLDS_MS \<and>
   severity_for_response_time 2500 SEVERITY_THRESHOLDS_MS = Some Critical \<and>
   (2500::rat) > critical ERROR_RATE_THRESHOLDS_PERCENT \<and>
   severity_for_error_rate 2500 ERROR_RATE_THRESHOLDS_PERCENT = Some Critical"
  using severity_monotone [of 600 1500 2500]
  by (simp add: SEVERITY_THRESHOLDS_MS_def ERROR_RATE_THRESHOLDS_PERCENT_def)

subsection \<open>Rounding\<close>



subsection \<open>The two-pointer window scan\<close>

lemma advance_left_ok:
  assumes "left \<le> right" "right < length ts" "\<not> ts ! right < ws"
  shows "\<exists>l. advance_left ts ws left = Inr l \<and> left \<le> l \<and> l \<le> right
            \<and> (\<forall>i. left \<le> i \<and> i < l \<longrightarrow> ts ! i < ws) \<and> \<not> ts ! l < ws"
  using assms
proof (induction ts ws left rule: advance_left.induct)
  case (1 ts ws left)
  show ?case
  proof (cases "ts ! left < ws")
    case True
    with "1.prems" have ne: "left \<noteq> right" by auto
    with "1.prems" have le: "left + 1 \<le> right" by simp
    from "1.prems" have notge: "\<not> length ts \<le> left" by simp
    from "1.IH" [OF notge True le "1.prems"(2,3)]
    obtain l where l: "advance_left ts ws (left + 1) = Inr l" "left + 1 \<le> l" "l \<le> right"
      "\<forall>i. left + 1 \<le> i \<and> i < l \<longrightarrow> ts ! i < ws" "\<not> ts ! l < ws"
      by blast
    have "advance_left ts ws left = Inr l"
      using True notge l(1) by (subst advance_left.simps) simp
    moreover have "\<forall>i. left \<le> i \<and> i < l \<longrightarrow> ts ! i < ws"
    proof (intro allI impI)
      fix i assume i: "left \<le> i \<and> i < l"
      show "ts ! i < ws"
      proof (cases "i = left")
        case True with \<open>ts ! left < ws\<close> show ?thesis by simp
      next
        case False with i l(4) show ?thesis by simp
      qed
    qed
    ultimately show ?thesis using l by auto
  next
    case False
    from "1.prems" have notge: "\<not> length ts \<le> left" by simp
    have "advance_left ts ws left = Inr left"
      using False notge by (subst advance_left.simps) simp
    with False "1.prems" show ?thesis by auto
  qed
qed

lemma advance_left_past_end:
  "left \<ge> length ts \<Longrightarrow> advance_left ts ws left = Inl IndexError"
  by (subst advance_left.simps) simp

lemma sliding_loop_done:
  "\<not> right < length ts \<Longrightarrow> sliding_loop ts w right left counts = Inr counts"
  by (subst sliding_loop.simps) simp

lemma sliding_loop_step:
  "right < length ts \<Longrightarrow>
   advance_left ts (ts ! right - timedelta_minutes w) left = Inr l \<Longrightarrow>
   sliding_loop ts w right left counts =
     sliding_loop ts w (right + 1) l (counts @ [(ts ! right, int right - int l + 1)])"
  by (subst sliding_loop.simps) (simp add: Let_def)


lemma filter_upt_suffix:
  assumes "l \<le> n" "\<forall>i<l. \<not> P i" "\<forall>i. l \<le> i \<and> i < n \<longrightarrow> P i"
  shows "filter P [0..<n] = [l..<n]"
proof -
  have "[0..<n] = [0..<l] @ [l..<n]"
    using assms(1) upt_add_eq_append [of 0 l "n - l"] by simp
  moreover have "filter P [0..<l] = []" using assms(2) by (simp add: filter_empty_conv)
  moreover have "filter P [l..<n] = [l..<n]" using assms(3) by (simp add: filter_id_conv)
  ultimately show ?thesis by simp
qed

lemma sliding_loop_sorted:
  assumes "sorted ts" "0 \<le> w"
    and "left \<le> right"
    and "right < length ts \<longrightarrow> (\<forall>i<left. ts ! i < ts ! right - timedelta_minutes w)"
  shows "sliding_loop ts w right left counts
           = Inr (counts @ map (\<lambda>r. (ts ! r, window_count ts w r)) [right..<length ts])"
  using assms(3,4)
proof (induction "length ts - right" arbitrary: right left counts)
  case 0
  then show ?case by (simp add: sliding_loop_done)
next
  case (Suc n)
  then have r: "right < length ts" by simp
  let ?ws = "ts ! right - timedelta_minutes w"
  have "\<not> ts ! right < ?ws"
    using assms(2) by (simp add: timedelta_minutes_def)
  from advance_left_ok [OF Suc.prems(1) r this]
  obtain l where l: "advance_left ts ?ws left = Inr l" "left \<le> l" "l \<le> right"
    "\<forall>i. left \<le> i \<and> i < l \<longrightarrow> ts ! i < ?ws" "\<not> ts ! l < ?ws" by blast
  have below: "\<forall>i<l. ts ! i < ?ws"
    using l(4) Suc.prems(2) r by (metis not_le_imp_less)
  have above: "\<forall>i. l \<le> i \<and> i < Suc right \<longrightarrow> ?ws \<le> ts ! i"
  proof (intro allI impI)
    fix i assume i: "l \<le> i \<and> i < Suc right"
    then have "ts ! l \<le> ts ! i" using assms(1) r by (simp add: sorted_nth_mono)
    with l(5) show "?ws \<le> ts ! i" by simp
  qed
  have "filter (\<lambda>i. ?ws \<le> ts ! i) [0..<Suc right] = [l..<Suc right]"
    using l(3) below above by (intro filter_upt_suffix) auto
  then have cnt: "window_count ts w right = int right - int l + 1"
    using l(3) by (simp add: window_count_def)
  have n: "n = length ts - (right + 1)" using Suc.hyps(2) by simp
  have le': "l \<le> right + 1" using l(3) by simp
  have inv: "right + 1 < length ts \<longrightarrow> (\<forall>i<l. ts ! i < ts ! (right + 1) - timedelta_minutes w)"
  proof (intro impI allI)
    fix i assume a: "right + 1 < length ts" "i < l"
    have "ts ! right \<le> ts ! (right + 1)" using assms(1) a(1) by (simp add: sorted_nth_mono)
    with below a(2) show "ts ! i < ts ! (right + 1) - timedelta_minutes w" by fastforce
  qed
  have "sliding_loop ts w right left counts
          = sliding_loop ts w (right + 1) l (counts @ [(ts ! right, int right - int l + 1)])"
    by (rule sliding_loop_step [OF r l(1)])
  also have "\<dots> = Inr ((counts @ [(ts ! right, int right - int l + 1)])
                      @ map (\<lambda>r. (ts ! r, window_count ts w r)) [right + 1..<length ts])"
    by (rule Suc.hyps(1) [OF n le' inv])
  also have "\<dots> = Inr (counts @ map (\<lambda>r. (ts ! r, window_count ts w r)) [right..<length ts])"
    using r cnt by (simp add: upt_conv_Cons)
  finally show ?case .
qed


lemma sliding_window_counts_sorted:
  "sorted ts \<Longrightarrow> 0 \<le> w \<Longrightarrow> sliding_window_counts ts w = Inr (window_counts ts w)"
  using sliding_loop_sorted [of ts w 0 0 "[]"]
  by (simp add: sliding_window_counts_def window_counts_def)







subsection \<open>Dicts filled by a loop\<close>

lemma first_occurrences_snoc:
  "first_occurrences (xs @ [x]) =
     (if x \<in> set xs then first_occurrences xs else first_occurrences xs @ [x])"
  by (simp add: first_occurrences_def)

lemma set_first_occurrences [simp]: "set (first_occurrences xs) = set xs"
  by (simp add: first_occurrences_def)

lemma distinct_first_occurrences [simp]: "distinct (first_occurrences xs)"
  by (simp add: first_occurrences_def)

lemma first_occurrences_Nil [simp]: "first_occurrences [] = []"
  by (simp add: first_occurrences_def)

lemma update_map_keys:
  "distinct ks \<Longrightarrow>
   AList.update k v (map (\<lambda>k'. (k', g k')) ks) =
     (if k \<in> set ks then map (\<lambda>k'. (k', if k' = k then v else g k')) ks
      else map (\<lambda>k'. (k', g k')) ks @ [(k, v)])"
  by (induction ks) auto

lemma map_of_map_keys:
  "map_of (map (\<lambda>k'. (k', g k')) ks) k = (if k \<in> set ks then Some (g k) else None)"
  by (induction ks) auto

lemma fold_update_groups:
  "fold (\<lambda>x d. AList.update (key x)
                  (upd x (case map_of d (key x) of None \<Rightarrow> init | Some s \<Rightarrow> s)) d) xs []
     = map (\<lambda>k. (k, fold upd (filter (\<lambda>x. key x = k) xs) init))
         (first_occurrences (map key xs))"
proof (induction xs rule: rev_induct)
  case Nil
  show ?case by simp
next
  case (snoc x xs)
  define G where "G = (\<lambda>ys k. fold upd (filter (\<lambda>x. key x = k) ys) init)"
  define ks where "ks = first_occurrences (map key xs)"
  define d where "d = map (\<lambda>k. (k, G xs k)) ks"
  have ks: "distinct ks" "set ks = key ` set xs" by (simp_all add: ks_def)
  have IH: "fold (\<lambda>x d. AList.update (key x)
                  (upd x (case map_of d (key x) of None \<Rightarrow> init | Some s \<Rightarrow> s)) d) xs [] = d"
    using snoc.IH by (simp add: d_def G_def ks_def)
  have old: "(case map_of d (key x) of None \<Rightarrow> init | Some s \<Rightarrow> s) = G xs (key x)"
  proof (cases "key x \<in> set ks")
    case True
    then show ?thesis by (simp add: d_def map_of_map_keys)
  next
    case False
    then have "filter (\<lambda>y. key y = key x) xs = []"
      using ks(2) by (auto simp: filter_empty_conv image_iff)
    with False show ?thesis by (simp add: d_def map_of_map_keys G_def)
  qed
  have new: "upd x (G xs (key x)) = G (xs @ [x]) (key x)" by (simp add: G_def)
  have other: "\<And>k. k \<noteq> key x \<Longrightarrow> G (xs @ [x]) k = G xs k" by (auto simp: G_def)
  have step: "fold (\<lambda>x d. AList.update (key x)
                  (upd x (case map_of d (key x) of None \<Rightarrow> init | Some s \<Rightarrow> s)) d) (xs @ [x]) []
        = AList.update (key x) (G (xs @ [x]) (key x)) d"
    using IH old new by simp
  have "AList.update (key x) (G (xs @ [x]) (key x)) d
          = map (\<lambda>k. (k, G (xs @ [x]) k)) (first_occurrences (map key (xs @ [x])))"
  proof (cases "key x \<in> set ks")
    case True
    then have "AList.update (key x) (G (xs @ [x]) (key x)) d
                 = map (\<lambda>k. (k, if k = key x then G (xs @ [x]) (key x) else G xs k)) ks"
      using ks(1) by (simp add: d_def update_map_keys)
    also have "\<dots> = map (\<lambda>k. (k, G (xs @ [x]) k)) ks"
      by (rule map_cong) (auto simp: other)
    also have "ks = first_occurrences (map key (xs @ [x]))"
      using True ks(2) by (simp add: first_occurrences_snoc ks_def)
    finally show ?thesis .
  next
    case False
    have "\<And>k. k \<in> set ks \<Longrightarrow> G xs k = G (xs @ [x]) k"
      using False other by metis
    then have eq_d: "d = map (\<lambda>k. (k, G (xs @ [x]) k)) ks"
      unfolding d_def by (intro map_cong) auto
    have "AList.update (key x) (G (xs @ [x]) (key x)) d = d @ [(key x, G (xs @ [x]) (key x))]"
      using False ks(1) by (simp add: d_def update_map_keys)
    also have "\<dots> = map (\<lambda>k. (k, G (xs @ [x]) k)) (ks @ [key x])"
      using eq_d by simp
    also have "ks @ [key x] = first_occurrences (map key (xs @ [x]))"
      using False ks(2) by (simp add: first_occurrences_snoc ks_def)
    finally show ?thesis .
  qed
  with step show ?case by (simp add: G_def)
qed

lemma fold_snoc_id: "fold (\<lambda>x vs. vs @ [x]) xs acc = acc @ xs"
  by (induction xs arbitrary: acc) auto

lemma fold_snoc_map: "fold (\<lambda>x vs. vs @ [f x]) xs acc = acc @ map f xs"
  by (induction xs arbitrary: acc) auto

lemma fold_if_filter: "fold (\<lambda>x d. if P x then f x d else d) xs d0 = fold f (filter P xs) d0"
  by (induction xs arbitrary: d0) auto

lemma fold_incr_length: "fold (\<lambda>x n. n + 1) xs (c::int) = c + int (length xs)"
  by (induction xs arbitrary: c) auto

lemma by_endpoint_ts_eq:
  "by_endpoint_ts logs =
     map (\<lambda>ep. (ep, map timestamp (filter (\<lambda>l. endpoint l = ep) logs)))
       (first_occurrences (map endpoint logs))"
proof -
  have "by_endpoint_ts logs =
          fold (\<lambda>x d. AList.update (endpoint x)
                  ((\<lambda>l vs. vs @ [timestamp l]) x
                     (case map_of d (endpoint x) of None \<Rightarrow> [] | Some s \<Rightarrow> s)) d) logs []"
    by (simp add: by_endpoint_ts_def group_append_def [abs_def])
  also have "\<dots> = map (\<lambda>k. (k, fold (\<lambda>l vs. vs @ [timestamp l]) (filter (\<lambda>x. endpoint x = k) logs) []))
         (first_occurrences (map endpoint logs))"
    by (rule fold_update_groups)
  finally show ?thesis by (simp add: fold_snoc_map)
qed

lemma by_endpoint_logs_eq:
  "by_endpoint_logs logs =
     map (\<lambda>ep. (ep, filter (\<lambda>l. endpoint l = ep) logs))
       (first_occurrences (map endpoint logs))"
proof -
  have "by_endpoint_logs logs =
          fold (\<lambda>x d. AList.update (endpoint x)
                  ((\<lambda>l vs. vs @ [l]) x
                     (case map_of d (endpoint x) of None \<Rightarrow> [] | Some s \<Rightarrow> s)) d) logs []"
    by (simp add: by_endpoint_logs_def group_append_def [abs_def])
  also have "\<dots> = map (\<lambda>k. (k, fold (\<lambda>l vs. vs @ [l]) (filter (\<lambda>x. endpoint x = k) logs) []))
         (first_occurrences (map endpoint logs))"
    by (rule fold_update_groups)
  finally show ?thesis by (simp add: fold_snoc_id)
qed

lemma error_ts_eq:
  "error_ts logs = by_endpoint_ts (filter (\<lambda>l. 400 \<le> status_code l \<and> status_code l \<le> 599) logs)"
  by (simp add: error_ts_def by_endpoint_ts_def fold_if_filter)

lemma Counter_eq:
  "Counter xs = map (\<lambda>k. (k, int (count_list xs k))) (first_occurrences xs)"
proof -
  have "Counter xs =
          fold (\<lambda>x d. AList.update ((\<lambda>x. x) x)
                  ((\<lambda>x n. n + 1) x
                     (case map_of d ((\<lambda>x. x) x) of None \<Rightarrow> 0 | Some s \<Rightarrow> s)) d) xs []"
    by (simp add: Counter_def counter_incr_def)
  also have "\<dots> = map (\<lambda>k. (k, fold (\<lambda>x n. n + 1) (filter (\<lambda>x. (\<lambda>x. x) x = k) xs) (0::int)))
         (first_occurrences (map (\<lambda>x. x) xs))"
    by (rule fold_update_groups)
  also have "\<dots> = map (\<lambda>k. (k, int (count_list xs k))) (first_occurrences xs)"
  proof -
    have "\<And>k. length (filter (\<lambda>x. x = k) xs) = count_list xs k"
      by (induction xs) auto
    then show ?thesis by (simp add: fold_incr_length)
  qed
  finally show ?thesis .
qed

subsection \<open>The anomaly loops return\<close>

lemma for_items_Inr:
  "(\<And>k v. (k, v) \<in> set items \<Longrightarrow> body k v = Inr (g k v)) \<Longrightarrow>
   for_items body items = Inr (concat (map (\<lambda>(k, v). g k v) items))"
  by (induction items) auto

lemma request_spike_eq:
  assumes "ts \<noteq> []"
  shows "request_spike ep ts = Inr (spike_findings ep (sort ts))"
proof -
  have ne: "sort ts \<noteq> []" using assms by (metis length_sort length_0_conv)
  have "sliding_window_counts (sort ts) REQUEST_SPIKE_WINDOW_MINUTES
          = Inr (window_counts (sort ts) REQUEST_SPIKE_WINDOW_MINUTES)"
    by (rule sliding_window_counts_sorted) (simp_all add: REQUEST_SPIKE_WINDOW_MINUTES_def)
  then show ?thesis using ne by (simp add: request_spike_def spike_findings_def Let_def)
qed

lemma error_cluster_eq: "error_cluster ep ts = Inr (cluster_findings ep (sort ts))"
proof -
  have "sliding_window_counts (sort ts) ERROR_CLUSTER_WINDOW_MINUTES
          = Inr (window_counts (sort ts) ERROR_CLUSTER_WINDOW_MINUTES)"
    by (rule sliding_window_counts_sorted) (simp_all add: ERROR_CLUSTER_WINDOW_MINUTES_def)
  then show ?thesis by (simp add: error_cluster_def cluster_findings_def Let_def)
qed

lemma spikes_eq:
  "for_items request_spike (by_endpoint_ts logs) = Inr (all_spike_findings logs)"
proof -
  have "for_items request_spike (by_endpoint_ts logs)
          = Inr (concat (map (\<lambda>(k, v). spike_findings k (sort v)) (by_endpoint_ts logs)))"
  proof (rule for_items_Inr)
    fix k v assume "(k, v) \<in> set (by_endpoint_ts logs)"
    then have "v = map timestamp (filter (\<lambda>l. endpoint l = k) logs)" "k \<in> endpoint ` set logs"
      by (auto simp: by_endpoint_ts_eq)
    then have "v \<noteq> []" by (auto simp: filter_empty_conv)
    then show "request_spike k v = Inr (spike_findings k (sort v))" by (rule request_spike_eq)
  qed
  then show ?thesis
    by (simp add: by_endpoint_ts_eq all_spike_findings_def endpoint_timestamps_def comp_def)
qed

lemma clusters_eq:
  "for_items error_cluster (error_ts logs) = Inr (all_cluster_findings logs)"
proof -
  have "for_items error_cluster (error_ts logs)
          = Inr (concat (map (\<lambda>(k, v). cluster_findings k (sort v)) (error_ts logs)))"
    by (rule for_items_Inr) (rule error_cluster_eq)
  then show ?thesis
    by (simp add: error_ts_eq by_endpoint_ts_eq all_cluster_findings_def
        endpoint_error_timestamps_def comp_def is_error_entry_def [abs_def])
qed

lemma degradations_eq:
  "concat (map (\<lambda>(ep, logs). degradation ep logs) (by_endpoint_logs logs)) = all_degradations logs"
  by (simp add: by_endpoint_logs_eq all_degradations_def comp_def)

lemma first_max_bounds:
  "first_max best xs \<in> set (best # xs) \<and> (\<forall>y \<in> set (best # xs). snd y \<le> snd (first_max best xs))"
proof (induction xs arbitrary: best)
  case Nil
  show ?case by simp
next
  case (Cons x xs)
  from Cons.IH [of "if snd x > snd best then x else best"]
  show ?case by (auto split: if_splits)
qed

lemma first_max_first:
  "first_max best xs = hd (filter (\<lambda>y. snd y = snd (first_max best xs)) (best # xs))"
proof (induction xs arbitrary: best)
  case Nil
  show ?case by simp
next
  case (Cons x xs)
  define b where "b = (if snd x > snd best then x else best)"
  define M where "M = snd (first_max b xs)"
  have fm: "first_max best (x # xs) = first_max b xs" by (simp add: b_def)
  have IH: "first_max b xs = hd (filter (\<lambda>y. snd y = M) (b # xs))"
    using Cons.IH [of b] by (simp add: M_def)
  have ge: "snd b \<le> M" using first_max_bounds [of b xs] by (simp add: M_def)
  have "hd (filter (\<lambda>y. snd y = M) (best # x # xs)) = hd (filter (\<lambda>y. snd y = M) (b # xs))"
  proof (cases "snd x > snd best")
    case True
    then have "b = x" by (simp add: b_def)
    with True ge have "snd best \<noteq> M" by simp
    with \<open>b = x\<close> show ?thesis by simp
  next
    case False
    then have bb: "b = best" by (simp add: b_def)
    show ?thesis
    proof (cases "snd best = M")
      case True
      with bb show ?thesis by simp
    next
      case ne: False
      with False ge bb have "snd x \<noteq> M" by simp
      with ne bb show ?thesis by simp
    qed
  qed
  with IH fm show ?case by (simp only: M_def)
qed

lemma first_occurrences_filter:
  "filter P (first_occurrences xs) = first_occurrences (filter P xs)"
  by (induction xs rule: rev_induct) (auto simp: first_occurrences_snoc)

lemma hd_first_occurrences: "hd (first_occurrences xs) = hd xs"
proof (induction xs rule: rev_induct)
  case Nil
  show ?case by simp
next
  case (snoc x xs)
  show ?case
  proof (cases "xs = []")
    case True
    then show ?thesis by (simp add: first_occurrences_def)
  next
    case False
    then have "first_occurrences xs \<noteq> []"
      by (metis set_first_occurrences set_empty)
    with False snoc show ?thesis by (simp add: first_occurrences_snoc)
  qed
qed

lemma most_common_1_Counter:
  assumes "xs \<noteq> []"
  shows "most_common 1 (Counter xs)
           = [(hd (filter (\<lambda>k. int (count_list xs k) = Max (set (map (\<lambda>k. int (count_list xs k)) xs))) xs),
               Max (set (map (\<lambda>k. int (count_list xs k)) xs)))]"
proof -
  define cnt where "cnt = (\<lambda>k. int (count_list xs k))"
  define ks where "ks = first_occurrences xs"
  define items where "items = map (\<lambda>k. (k, cnt k)) ks"
  have ks: "ks \<noteq> []" "set ks = set xs"
    using assms by (auto simp: ks_def) (metis set_first_occurrences set_empty)
  have C: "Counter xs = items" by (simp add: Counter_eq items_def ks_def cnt_def)
  obtain x rest where xr: "items = x # rest" using ks(1) by (cases items) (auto simp: items_def)
  define r where "r = first_max x rest"
  have mc: "most_common 1 (Counter xs) = [r]"
    by (simp add: most_common_def most_common_1_def C xr r_def)
  have b: "r \<in> set items" "\<forall>y \<in> set items. snd y \<le> snd r"
    using first_max_bounds [of x rest] by (simp_all add: xr r_def)
  have sndset: "snd ` set items = set (map cnt xs)"
    using ks(2) by (auto simp: items_def image_iff)
  have M: "snd r = Max (set (map cnt xs))"
  proof -
    have "snd r \<in> snd ` set items" using b(1) by (rule imageI)
    moreover have "\<forall>y \<in> snd ` set items. y \<le> snd r" using b(2) by auto
    ultimately show ?thesis unfolding sndset by (intro Max_eqI [symmetric]) auto
  qed
  have "r = hd (filter (\<lambda>y. snd y = snd r) items)"
    using first_max_first [of x rest] by (simp add: xr r_def)
  also have "filter (\<lambda>y. snd y = snd r) items = map (\<lambda>k. (k, cnt k)) (filter (\<lambda>k. cnt k = snd r) ks)"
    by (simp add: items_def filter_map comp_def)
  also have "filter (\<lambda>k. cnt k = snd r) ks = first_occurrences (filter (\<lambda>k. cnt k = snd r) xs)"
    by (simp add: ks_def first_occurrences_filter)
  finally have r: "r = hd (map (\<lambda>k. (k, cnt k)) (first_occurrences (filter (\<lambda>k. cnt k = snd r) xs)))" .
  have ne: "filter (\<lambda>k. cnt k = snd r) xs \<noteq> []"
  proof -
    from b(1) obtain k where "k \<in> set ks" "r = (k, cnt k)" by (auto simp: items_def)
    then show ?thesis using ks(2) by (auto simp: filter_empty_conv)
  qed
  then have ne': "first_occurrences (filter (\<lambda>k. cnt k = snd r) xs) \<noteq> []"
    by (metis set_first_occurrences set_empty)
  have "hd (map (\<lambda>k. (k, cnt k)) (first_occurrences (filter (\<lambda>k. cnt k = snd r) xs)))
          = (hd (first_occurrences (filter (\<lambda>k. cnt k = snd r) xs)),
             cnt (hd (first_occurrences (filter (\<lambda>k. cnt k = snd r) xs))))"
    using ne' by (simp add: hd_map)
  with r have "fst r = hd (first_occurrences (filter (\<lambda>k. cnt k = snd r) xs))"
    by (metis fst_conv)
  then have "fst r = hd (filter (\<lambda>k. cnt k = snd r) xs)"
    by (simp only: hd_first_occurrences)
  then have "r = (hd (filter (\<lambda>k. cnt k = Max (set (map cnt xs))) xs), Max (set (map cnt xs)))"
    using M by (metis prod.collapse)
  with mc show ?thesis by (simp add: cnt_def)
qed

lemma count_list_user: "int (count_list (map user_id logs) u) = user_count logs u"
  by (induction logs) (auto simp: user_count_def)

lemma unusual_user_eq: "unusual_user logs = Inr (user_findings logs)"
proof (cases "logs = []")
  case True
  then show ?thesis by (simp add: unusual_user_def user_findings_def)
next
  case False
  then have ne: "map user_id logs \<noteq> []" by simp
  have cnt: "(\<lambda>k. int (count_list (map user_id logs) k)) = user_count logs"
    by (rule ext) (rule count_list_user)
  have mc: "most_common 1 (Counter (map user_id logs)) = [(top_user logs, top_count logs)]"
    unfolding top_user_def top_count_def cnt [symmetric] by (rule most_common_1_Counter [OF ne])
  have mc': "most_common (Suc 0) (Counter (map user_id logs)) = [(top_user logs, top_count logs)]"
    using mc by simp
  show ?thesis using False
    by (simp add: unusual_user_def user_findings_def Let_def mc' UNUSUAL_USER_SHARE_THRESHOLD_def)
qed

lemma anomalies_eq:
  "anomalies logs es =
     Inr (if logs = [] then []
          else all_spike_findings logs @ all_degradations logs
               @ all_cluster_findings logs @ user_findings logs)"
  by (simp add: anomalies_def spikes_eq clusters_eq degradations_eq unusual_user_eq)

lemma analyze_api_logs_eq:
  "analyze_api_logs L logs =
     Inr \<lparr>rep_summary = calc_summary (valid_logs_of L logs),
          rep_endpoint_stats = calc_endpoint_stats (valid_logs_of L logs),
          rep_performance_issues =
            detect_performance_issues (calc_endpoint_stats (valid_logs_of L logs)),
          rep_recommendations =
            recommendations (calc_summary (valid_logs_of L logs))
              (calc_endpoint_stats (valid_logs_of L logs)),
          rep_hourly_distribution = hourly_distribution (valid_logs_of L logs),
          rep_top_users_by_requests = top_users (valid_logs_of L logs) 5,
          rep_cost_analysis =
            cost_analysis (valid_logs_of L logs) (calc_endpoint_stats (valid_logs_of L logs)),
          rep_anomalies =
            (if valid_logs_of L logs = [] then []
             else all_spike_findings (valid_logs_of L logs)
                  @ all_degradations (valid_logs_of L logs)
                  @ all_cluster_findings (valid_logs_of L logs)
                  @ user_findings (valid_logs_of L logs))\<rparr>"
  by (simp add: analyze_api_logs_def Let_def anomalies_eq)

subsection \<open>Validation and degenerate inputs\<close>

lemma valid_logs_of_all_rejected:
  "\<forall>e \<in> set logs. validate_log_entry L e = None \<Longrightarrow> valid_logs_of L logs = []"
  by (simp add: valid_logs_of_def List.map_filter_def filter_empty_conv)

lemma py_round_zero [simp]: "py_round 0 n = 0"
  by (simp add: py_round_def round_half_even_def)


lemma bad_entries_rejected:
  "validate_log_entry example_stdlib entry_without_status = None"
  "validate_log_entry example_stdlib entry_bad_timestamp = None"
  "validate_log_entry example_stdlib entry_negative_time = None"
  by (simp_all add: entry_without_status_def entry_bad_timestamp_def entry_negative_time_def
      good_entry_def raw_entry_of_def validate_log_entry_def REQUIRED_FIELDS_def
      parse_timestamp_def replace_Z_def example_stdlib_def fromisoformat_2025_01_15_def
      digit_val_def safe_str_def safe_int_def py_int_def py_str_def
      less_eq_char_def Let_def)


text \<open>
  C8. For the empty sequence, and for every sequence in which no record validates,
  \<open>analyze_api_logs\<close> returns a report: no requests, no time range, averages and rates
  0, no endpoint statistics and no anomalies (and every other part empty).
\<close>

theorem degenerate_input_report:
  assumes "\<forall>e \<in> set logs. validate_log_entry L e = None"
  shows "analyze_api_logs L logs = Inr empty_report"
proof -
  have v: "valid_logs_of L logs = []" using assms by (rule valid_logs_of_all_rejected)
  show ?thesis
    unfolding analyze_api_logs_eq v
    by (simp add: calc_summary_def calc_endpoint_stats_def aggregate_by_endpoint_def
        detect_performance_issues_def recommendations_def hourly_distribution_def
        top_users_def Counter_def most_common_def cost_analysis_def
        total_request_cost_def total_execution_cost_def total_memory_cost_def
        empty_report_def)
qed

theorem degenerate_input_report_witness:
  "validate_log_entry example_stdlib entry_bad_timestamp = None
   \<and> validate_log_entry example_stdlib entry_without_status = None
   \<and> analyze_api_logs example_stdlib [entry_bad_timestamp, entry_without_status] = Inr empty_report
   \<and> analyze_api_logs example_stdlib [] = Inr empty_report"
proof -
  have h: "\<forall>e \<in> set [entry_bad_timestamp, entry_without_status].
             validate_log_entry example_stdlib e = None"
    by (simp add: bad_entries_rejected)
  show ?thesis
    using h degenerate_input_report [OF h] degenerate_input_report [of "[]" example_stdlib]
    by simp
qed





subsection \<open>Cost estimation\<close>



subsection \<open>Unusual user behaviour\<close>






lemma user_findings_empty [simp]: "user_findings [] = []"
  by (simp add: user_findings_def)













subsection \<open>Error clusters\<close>


lemma window_counts_Nil [simp]: "window_counts [] w = []"
  by (simp add: window_counts_def)

lemma cluster_findings_Nil [simp]: "cluster_findings ep [] = []"
  by (simp add: cluster_findings_def)











end
